theory Spec2Isabelle
  imports Main "HOL-Library.Word"
begin

unbundle bit_operations_syntax

section \<open>The manufacturing meta region of \<open>newt/mfg/meta.go\<close>\<close>

text \<open>
  The file serialises a meta region (a header, one TLV per flash area, a zeroed hash
  TLV and a footer), places it at the end of the boot loader's flash area of a
  manufacturing image, and afterwards patches the SHA-256 of the image into the hash
  TLV. This theory embeds those functions and settles the properties stated of them.

  Conventions of the embedding:
  \<^item> a byte is an \<open>8 word\<close>, a \<open>[]byte\<close> is a list of bytes; its length and its
    capacity are taken to be the same;
  \<^item> Go's \<open>int\<close> is taken at 64 bits: a value of it is an \<open>int\<close> in the range \<open>goInt\<close>,
    and a sum or difference of flash offsets and sizes wraps around (\<open>go_int\<close>);
  \<^item> the conversions \<open>uint8(x)\<close>, \<open>uint16(x)\<close>, \<open>uint32(x)\<close> keep the low bits
    of \<open>x\<close>: \<open>word_of_int x\<close>;
  \<^item> an \<open>error\<close> return and a run-time panic are values of the type \<open>error\<close>;
  \<^item> a function that mutates the image returns the image.
\<close>

subsection \<open>Constants\<close>

type_synonym byte = "8 word"

definition META_MAGIC :: "32 word" where "META_MAGIC = 0x3bb2a269"
definition META_VERSION :: "8 word" where "META_VERSION = 1"
definition META_TLV_CODE_HASH :: "8 word" where "META_TLV_CODE_HASH = 0x01"
definition META_TLV_CODE_FLASH_AREA :: "8 word" where "META_TLV_CODE_FLASH_AREA = 0x02"

definition META_HASH_SZ :: nat where "META_HASH_SZ = 32"
definition META_FOOTER_SZ :: nat where "META_FOOTER_SZ = 8"
definition META_TLV_HASH_SZ :: nat where "META_TLV_HASH_SZ = META_HASH_SZ"
definition META_TLV_FLASH_AREA_SZ :: nat where "META_TLV_FLASH_AREA_SZ = 12"

subsection \<open>Go's \<open>int\<close>\<close>

text \<open>
  \<open>goInt x\<close>: \<open>x\<close> is a value of the 64-bit type \<open>int\<close>. \<open>go_int x\<close> is the value of that
  type that the exact result \<open>x\<close> of an addition or a subtraction wraps to (two's
  complement).
\<close>

definition goInt :: "int \<Rightarrow> bool" where
  "goInt x \<longleftrightarrow> - (2 ^ 63) \<le> x \<and> x < 2 ^ 63"

definition go_int :: "int \<Rightarrow> int" where
  "go_int x = (x + 2 ^ 63) mod 2 ^ 64 - 2 ^ 63"

subsection \<open>Package \<open>flash\<close>\<close>

text \<open>
  Package \<open>flash\<close> is imported by \<open>meta.go\<close> and is not among the sources. The source
  compares \<open>Size\<close> with \<open>buf.Len()\<close> and indexes the image with sums of \<open>Offset\<close> and
  \<open>Size\<close>, so both are of Go's type \<open>int\<close>; \<open>Id\<close> and \<open>Device\<close> are converted with
  \<open>uint8(...)\<close> and are taken to be of type \<open>int\<close> as well.
\<close>

record FlashArea =
  Name :: string
  Id :: int
  Device :: int
  Offset :: int
  Size :: int

text \<open>
  \<open>Areas\<close> is the Go map from area names to areas. \<open>SortedAreas\<close> stands for the result
  of the method \<open>flashMap.SortedAreas()\<close>, whose code is not among the sources: it is a
  field of the model, and nothing is assumed of its order or of its relation to
  \<open>Areas\<close>.
\<close>

record FlashMap =
  Areas :: "string \<rightharpoonup> FlashArea"
  SortedAreas :: "FlashArea list"

text \<open>
  Modelled from the spec: the constant \<open>flash.FLASH_AREA_NAME_BOOTLOADER\<close> is declared
  in package \<open>flash\<close>; the spec says that the designated area is named "bootloader".
  No theorem depends on the spelling of the name.
\<close>

definition FLASH_AREA_NAME_BOOTLOADER :: string where
  "FLASH_AREA_NAME_BOOTLOADER = ''bootloader''"

subsection \<open>Errors\<close>

text \<open>
  \<^item> \<open>EncodingFailure\<close>: \<open>util.ChildNewtError(err)\<close> of \<open>writeElem\<close>;
  \<^item> \<open>MissingRequiredArea\<close>: "Required boot loader flash area missing";
  \<^item> \<open>RegionTooLarge boot meta\<close>: "Boot loader flash area too small to accommodate
    meta region; boot=%d meta=%d";
  \<^item> \<open>RegionSpaceOccupied off\<close>: "Boot loader extends into meta region; meta region
    starts at offset %d";
  \<^item> \<open>IndexOutOfRange\<close>: the run-time panic of an index expression \<open>a[i]\<close>;
  \<^item> \<open>SliceOutOfRange\<close>: the run-time panic of a slice expression \<open>a[lo:hi]\<close>.
\<close>

datatype error =
    EncodingFailure
  | MissingRequiredArea
  | RegionTooLarge int int
  | RegionSpaceOccupied int
  | IndexOutOfRange
  | SliceOutOfRange

subsection \<open>\<open>binary.Write\<close> into a \<open>bytes.Buffer\<close>\<close>

text \<open>
  The values that \<open>meta.go\<close> hands to \<open>binary.Write\<close> are structs of unsigned integers
  of a fixed width, nested structs and byte arrays. \<open>binary.Write\<close> writes the fields in
  their order, without padding, and returns an error for a value that has a component
  without a fixed size, such as a Go \<open>int\<close> (\<open>GoInt\<close>).
\<close>

datatype gval =
    Uint8 "8 word"
  | Uint16 "16 word"
  | Uint32 "32 word"
  | GoInt int
  | Array "gval list"
  | Struct "gval list"

fun fixedSize :: "gval \<Rightarrow> bool" where
  "fixedSize (Uint8 _) = True"
| "fixedSize (Uint16 _) = True"
| "fixedSize (Uint32 _) = True"
| "fixedSize (GoInt _) = False"
| "fixedSize (Array vs) = list_all fixedSize vs"
| "fixedSize (Struct vs) = list_all fixedSize vs"

definition le16 :: "16 word \<Rightarrow> byte list" where
  "le16 w = [ucast w, ucast (drop_bit 8 w)]"

definition le32 :: "32 word \<Rightarrow> byte list" where
  "le32 w = [ucast w, ucast (drop_bit 8 w), ucast (drop_bit 16 w), ucast (drop_bit 24 w)]"

fun littleEndian :: "gval \<Rightarrow> byte list" where
  "littleEndian (Uint8 b) = [b]"
| "littleEndian (Uint16 w) = le16 w"
| "littleEndian (Uint32 w) = le32 w"
| "littleEndian (GoInt _) = []"
| "littleEndian (Array vs) = concat (map littleEndian vs)"
| "littleEndian (Struct vs) = concat (map littleEndian vs)"

text \<open>\<open>binary.Write(buf, binary.LittleEndian, elem)\<close>: the new buffer, or \<open>None\<close> for an error.\<close>

definition binary_Write :: "byte list \<Rightarrow> gval \<Rightarrow> byte list option" where
  "binary_Write buf elem = (if fixedSize elem then Some (buf @ littleEndian elem) else None)"

subsection \<open>The structs of the meta region\<close>

record metaHeader =
  version :: "8 word"
  pad8 :: "8 word"
  pad16 :: "16 word"

record metaFooter =
  size :: "16 word"
  pad16 :: "16 word"
  magic :: "32 word"

record metaTlvHeader =
  code :: "8 word"
  size :: "8 word"

record metaTlvFlashArea =
  header :: metaTlvHeader
  areaId :: "8 word"
  deviceId :: "8 word"
  pad16 :: "16 word"
  offset :: "32 word"
  size :: "32 word"

text \<open>
  The field \<open>hash [META_HASH_SZ]byte\<close> is \<open>hashBytes\<close> here, so that \<open>hash\<close> stays free
  for the local variable of that name in the hash patcher.
\<close>

record metaTlvHash =
  header :: metaTlvHeader
  hashBytes :: "byte list"

text \<open>The values of these structs as \<open>binary.Write\<close> sees them (field by field, in order).\<close>

definition metaHeader_val :: "metaHeader \<Rightarrow> gval" where
  "metaHeader_val h = Struct [Uint8 (version h), Uint8 (pad8 h), Uint16 (metaHeader.pad16 h)]"

definition metaFooter_val :: "metaFooter \<Rightarrow> gval" where
  "metaFooter_val f =
     Struct [Uint16 (metaFooter.size f), Uint16 (metaFooter.pad16 f), Uint32 (magic f)]"

definition metaTlvHeader_val :: "metaTlvHeader \<Rightarrow> gval" where
  "metaTlvHeader_val h = Struct [Uint8 (code h), Uint8 (metaTlvHeader.size h)]"

definition metaTlvFlashArea_val :: "metaTlvFlashArea \<Rightarrow> gval" where
  "metaTlvFlashArea_val t =
     Struct [metaTlvHeader_val (metaTlvFlashArea.header t),
             Uint8 (areaId t), Uint8 (deviceId t), Uint16 (metaTlvFlashArea.pad16 t),
             Uint32 (offset t), Uint32 (metaTlvFlashArea.size t)]"

definition metaTlvHash_val :: "metaTlvHash \<Rightarrow> gval" where
  "metaTlvHash_val t =
     Struct [metaTlvHeader_val (metaTlvHash.header t), Array (map Uint8 (hashBytes t))]"

subsection \<open>The encoder: \<open>writeElem\<close> to \<open>writeZeroHash\<close>\<close>

text \<open>The \<open>*bytes.Buffer\<close> argument is passed in and the grown buffer is returned.\<close>

definition writeElem :: "gval \<Rightarrow> byte list \<Rightarrow> error + byte list" where
  "writeElem elem buf =
     (case binary_Write buf elem of
        None \<Rightarrow> Inl EncodingFailure
      | Some buf' \<Rightarrow> Inr buf')"

definition writeHeader :: "byte list \<Rightarrow> error + byte list" where
  "writeHeader buf =
     (let hdr = \<lparr>version = META_VERSION, pad8 = 0xff, metaHeader.pad16 = 0xffff\<rparr>
      in writeElem (metaHeader_val hdr) buf)"

definition writeFooter :: "byte list \<Rightarrow> error + byte list" where
  "writeFooter buf =
     (let ftr = \<lparr>metaFooter.size = word_of_int (int (length buf) + int META_FOOTER_SZ),
                 metaFooter.pad16 = 0xffff,
                 magic = META_MAGIC\<rparr>
      in writeElem (metaFooter_val ftr) buf)"

definition writeTlvHeader :: "8 word \<Rightarrow> 8 word \<Rightarrow> byte list \<Rightarrow> error + byte list" where
  "writeTlvHeader c sz buf =
     (let tlvHdr = \<lparr>code = c, metaTlvHeader.size = sz\<rparr>
      in writeElem (metaTlvHeader_val tlvHdr) buf)"

definition writeFlashArea :: "FlashArea \<Rightarrow> byte list \<Rightarrow> error + byte list" where
  "writeFlashArea area buf =
     (let tlv = \<lparr>metaTlvFlashArea.header =
                   \<lparr>code = META_TLV_CODE_FLASH_AREA,
                    metaTlvHeader.size = of_nat META_TLV_FLASH_AREA_SZ\<rparr>,
                 areaId = word_of_int (Id area),
                 deviceId = word_of_int (Device area),
                 metaTlvFlashArea.pad16 = 0xffff,
                 offset = word_of_int (Offset area),
                 metaTlvFlashArea.size = word_of_int (Size area)\<rparr>
      in writeElem (metaTlvFlashArea_val tlv) buf)"

definition writeZeroHash :: "byte list \<Rightarrow> error + byte list" where
  "writeZeroHash buf =
     (let tlv = \<lparr>metaTlvHash.header =
                   \<lparr>code = META_TLV_CODE_HASH, metaTlvHeader.size = of_nat META_TLV_HASH_SZ\<rparr>,
                 hashBytes = replicate META_HASH_SZ 0\<rparr>
      in writeElem (metaTlvHash_val tlv) buf)"

text \<open>
  The loop \<open>for _, area := range flashMap.SortedAreas()\<close> of \<open>insertMeta\<close>: it returns
  the first error of \<open>writeFlashArea\<close>.
\<close>

fun writeFlashAreas :: "FlashArea list \<Rightarrow> byte list \<Rightarrow> error + byte list" where
  "writeFlashAreas [] buf = Inr buf"
| "writeFlashAreas (area # areas) buf =
     (case writeFlashArea area buf of
        Inl err \<Rightarrow> Inl err
      | Inr buf' \<Rightarrow> writeFlashAreas areas buf')"

text \<open>
  The first part of \<open>insertMeta\<close>, up to the call of \<open>writeFooter\<close>: it builds the
  meta region in a fresh buffer and returns the buffer together with \<open>hashSubOff\<close>.
\<close>

definition metaRegion :: "FlashMap \<Rightarrow> error + (byte list \<times> int)" where
  "metaRegion flashMap =
     (case writeHeader [] of
        Inl err \<Rightarrow> Inl err
      | Inr buf1 \<Rightarrow>
     (case writeFlashAreas (SortedAreas flashMap) buf1 of
        Inl err \<Rightarrow> Inl err
      | Inr buf2 \<Rightarrow>
     (case writeZeroHash buf2 of
        Inl err \<Rightarrow> Inl err
      | Inr buf3 \<Rightarrow>
         (let hashSubOff = int (length buf3) - int META_HASH_SZ in
          case writeFooter buf3 of
            Inl err \<Rightarrow> Inl err
          | Inr buf \<Rightarrow> Inr (buf, hashSubOff)))))"

subsection \<open>Slices\<close>

text \<open>
  \<open>copy(dst[lo:hi], src)\<close> for \<open>lo \<le> hi \<le> len(dst)\<close>: Go copies
  \<open>min(hi - lo, len(src))\<close> bytes and leaves the rest of \<open>dst\<close> as it is.
\<close>

definition go_copy :: "byte list \<Rightarrow> nat \<Rightarrow> nat \<Rightarrow> byte list \<Rightarrow> byte list" where
  "go_copy dst lo hi src =
     (let n = min (hi - lo) (length src)
      in take lo dst @ take n src @ drop (lo + n) dst)"

subsection \<open>\<open>insertMeta\<close>\<close>

text \<open>
  The loop \<open>for i := metaOff; i < bootArea.Size; i++\<close> of \<open>insertMeta\<close>, started at
  \<open>i\<close>. \<open>section0Data[i]\<close> panics when \<open>i\<close> is not an index of the image. The result is the
  error that leaves the loop, or \<open>None\<close> when the loop runs to its end.
\<close>

function scanLoop :: "byte list \<Rightarrow> int \<Rightarrow> int \<Rightarrow> int \<Rightarrow> error option" where
  "scanLoop section0Data metaOff bootSize i =
     (if i < bootSize then
        (if i < 0 \<or> int (length section0Data) \<le> i then Some IndexOutOfRange
         else if section0Data ! nat i \<noteq> 0xff then Some (RegionSpaceOccupied metaOff)
         else scanLoop section0Data metaOff bootSize (i + 1))
      else None)"
  by pat_completeness auto
termination
  by (relation "measure (\<lambda>(section0Data, metaOff, bootSize, i). nat (bootSize - i))") auto

declare scanLoop.simps [simp del]

text \<open>
  \<open>insertMeta\<close> returns the hash offset or the error, and the image \<open>section0Data\<close> as
  the call leaves it. The slice expression \<open>section0Data[metaOff:]\<close> panics unless
  \<open>0 \<le> metaOff \<le> len(section0Data)\<close>.

  The sums \<open>bootArea.Offset + bootArea.Size - buf.Len()\<close> and \<open>metaOff + hashSubOff\<close>
  wrap around. In the loop, \<open>i++\<close> is reached with \<open>i < bootArea.Size\<close> only and does
  not; neither do \<open>buf.Len() - META_HASH_SZ\<close> and \<open>buf.Len() + META_FOOTER_SZ\<close>, a
  buffer's length being far below \<open>2 ^ 63\<close>.
\<close>

definition insertMeta :: "byte list \<Rightarrow> FlashMap \<Rightarrow> (error + int) \<times> byte list" where
  "insertMeta section0Data flashMap =
     (case metaRegion flashMap of
        Inl err \<Rightarrow> (Inl err, section0Data)
      | Inr (buf, hashSubOff) \<Rightarrow>
     (case Areas flashMap FLASH_AREA_NAME_BOOTLOADER of
        None \<Rightarrow> (Inl MissingRequiredArea, section0Data)
      | Some bootArea \<Rightarrow>
         if Size bootArea < int (length buf) then
           (Inl (RegionTooLarge (Size bootArea) (int (length buf))), section0Data)
         else
           (let metaOff = go_int (go_int (Offset bootArea + Size bootArea) - int (length buf)) in
            case scanLoop section0Data metaOff (Size bootArea) metaOff of
              Some err \<Rightarrow> (Inl err, section0Data)
            | None \<Rightarrow>
                if metaOff < 0 \<or> int (length section0Data) < metaOff then
                  (Inl SliceOutOfRange, section0Data)
                else
                  (Inr (go_int (metaOff + hashSubOff)),
                   go_copy section0Data (nat metaOff) (length section0Data) buf))))"

subsection \<open>The hash patcher\<close>

text \<open>
  \<open>crypto/sha256\<close> is a package of Go's library: \<open>sha256.Sum256\<close> is the parameter
  \<open>Sum256\<close> of the two functions. It returns a \<open>[32]byte\<close>; the theorems below assume that
  its result has 32 bytes and nothing else.

  \<open>mfgImageBlob[hashOffset:hashOffset+META_HASH_SZ]\<close> panics unless
  \<open>0 \<le> hashOffset\<close> and \<open>hashOffset + 32 \<le> len(mfgImageBlob)\<close>. Both functions return
  the image as they leave it, or the panic.
\<close>

definition calcMetaHash ::
  "(byte list \<Rightarrow> byte list) \<Rightarrow> byte list \<Rightarrow> int \<Rightarrow> error + (byte list \<times> byte list)" where
  "calcMetaHash Sum256 mfgImageBlob hashOffset =
     (if hashOffset < 0 \<or> int (length mfgImageBlob) < hashOffset + int META_HASH_SZ then
        Inl SliceOutOfRange
      else
        (let off = nat hashOffset;
             oldContents = go_copy (replicate META_HASH_SZ 0) 0 META_HASH_SZ
                             (take META_HASH_SZ (drop off mfgImageBlob));
             zeroed = fold (\<lambda>i blob. blob[off + i := 0]) [0..<META_HASH_SZ] mfgImageBlob;
             hash = Sum256 zeroed;
             restored = go_copy zeroed off (off + META_HASH_SZ) oldContents
         in Inr (hash, restored)))"

definition fillMetaHash ::
  "(byte list \<Rightarrow> byte list) \<Rightarrow> byte list \<Rightarrow> int \<Rightarrow> error + byte list" where
  "fillMetaHash Sum256 mfgImageBlob hashOffset =
     (case calcMetaHash Sum256 mfgImageBlob hashOffset of
        Inl err \<Rightarrow> Inl err
      | Inr (hash, blob) \<Rightarrow>
          Inr (go_copy blob (nat hashOffset) (nat hashOffset + META_HASH_SZ) hash))"

subsection \<open>Reading a meta region\<close>

text \<open>
  The readers of the layout that the encoder writes: little-endian integers, the
  sequence of TLVs (a code, a size and a payload of that size) and the fields of the
  footer, which occupies the last eight bytes of a region. \<open>flashAreaBytes\<close>,
  \<open>regionBody\<close> and \<open>regionBytes\<close> spell out the bytes of a flash-area TLV and of a
  whole region; \<open>encodedRegion\<close> is the buffer that \<open>metaRegion\<close> returns.
  \<open>nthArea\<close> and \<open>manyAreas\<close> are example data: a flash map of 4678 areas.
\<close>

definition rd16 :: "byte list \<Rightarrow> 16 word" where
  "rd16 bs = ucast (bs ! 0) OR push_bit 8 (ucast (bs ! 1))"
definition rd32 :: "byte list \<Rightarrow> 32 word" where
  "rd32 bs = ucast (bs ! 0) OR push_bit 8 (ucast (bs ! 1)) OR push_bit 16 (ucast (bs ! 2)) OR push_bit 24 (ucast (bs ! 3))"

fun readTlvs :: "byte list \<Rightarrow> (byte \<times> byte list) list" where
  "readTlvs (c # sz # rest) =
     (if unat sz \<le> length rest
      then (c, take (unat sz) rest) # readTlvs (drop (unat sz) rest)
      else [])"
| "readTlvs _ = []"

definition flashAreaBytes :: "FlashArea \<Rightarrow> byte list" where
  "flashAreaBytes a = [0x02, 12, word_of_int (Id a), word_of_int (Device a), 0xff, 0xff] @ le32 (word_of_int (Offset a)) @ le32 (word_of_int (Size a))"

definition regionBytes :: "FlashArea list \<Rightarrow> byte list" where
  "regionBytes as = [1, 0xff, 0xff, 0xff] @ concat (map flashAreaBytes as) @ [1, 32] @ replicate 32 0
     @ le16 (of_nat (46 + 14 * length as)) @ [0xff, 0xff] @ le32 META_MAGIC"

definition footerSize :: "byte list \<Rightarrow> 16 word" where
  "footerSize buf = rd16 (drop (length buf - 8) buf)"
definition footerMagic :: "byte list \<Rightarrow> 32 word" where
  "footerMagic buf = rd32 (drop (length buf - 4) buf)"
definition encodedRegion :: "FlashMap \<Rightarrow> byte list" where
  "encodedRegion fm = (case metaRegion fm of Inl _ \<Rightarrow> [] | Inr (buf, _) \<Rightarrow> buf)"
definition nthArea :: "nat \<Rightarrow> FlashArea" where
  "nthArea i = \<lparr>Name = ''area'', Id = int i, Device = 0, Offset = 4096 * int i, Size = 4096\<rparr>"
definition manyAreas :: FlashMap where
  "manyAreas = \<lparr>Areas = Map.empty, SortedAreas = map nthArea [0..<4678]\<rparr>"

definition regionBody :: "FlashArea list \<Rightarrow> byte list" where
  "regionBody as = [1, 0xff, 0xff, 0xff] @ concat (map flashAreaBytes as) @ [1, 32] @ replicate 32 0"


subsection \<open>Reading a patched image\<close>

text \<open>
  \<open>hashFieldZeroed blob off\<close> is the image with the 32 bytes at \<open>off\<close> replaced by zero.
  \<open>lengthDigest\<close> is a stand-in for the digest in instances of the theorems.
\<close>

definition hashFieldZeroed :: "byte list \<Rightarrow> nat \<Rightarrow> byte list" where
  "hashFieldZeroed blob off = take off blob @ replicate 32 0 @ drop (off + 32) blob"

definition lengthDigest :: "byte list \<Rightarrow> byte list" where
  "lengthDigest b = replicate 32 (of_nat (length b))"

subsection \<open>Reading the TLVs of a region\<close>

text \<open>
  \<open>tlvSection\<close> is a region without its 4-byte header and its 8-byte footer.
  \<open>flashAreaPayload\<close> is the 12-byte payload of the TLV that \<open>writeFlashArea\<close> writes,
  and \<open>tlvAreaId\<close>, \<open>tlvDeviceId\<close>, \<open>tlvOffset\<close> and \<open>tlvSize\<close> read its fields.
  \<open>wideArea\<close> is example data: an area whose id and size exceed the width of their fields.
\<close>

definition tlvSection :: "byte list \<Rightarrow> byte list" where
  "tlvSection buf = take (length buf - 12) (drop 4 buf)"
definition flashAreaPayload :: "FlashArea \<Rightarrow> byte list" where
  "flashAreaPayload a = drop 2 (flashAreaBytes a)"
definition tlvAreaId :: "byte list \<Rightarrow> 8 word" where "tlvAreaId p = p ! 0"
definition tlvDeviceId :: "byte list \<Rightarrow> 8 word" where "tlvDeviceId p = p ! 1"
definition tlvOffset :: "byte list \<Rightarrow> 32 word" where "tlvOffset p = rd32 (drop 4 p)"
definition tlvSize :: "byte list \<Rightarrow> 32 word" where "tlvSize p = rd32 (drop 8 p)"
definition wideArea :: FlashArea where
  "wideArea = \<lparr>Name = ''wide'', Id = 257, Device = 0, Offset = 0, Size = 4294971392\<rparr>"
definition wideMap :: FlashMap where
  "wideMap = \<lparr>Areas = Map.empty, SortedAreas = [wideArea]\<rparr>"

text \<open>
  Length of the encoded region for a flash map, and the start offset of the
  region inside the boot loader area as an unbounded integer
  (\<open>bootArea.Offset + bootArea.Size - buf.Len()\<close> without wrap-around).
\<close>

definition regionLen :: "FlashMap \<Rightarrow> int" where
  "regionLen fm = 46 + 14 * int (length (SortedAreas fm))"

definition metaOffset :: "FlashArea \<Rightarrow> FlashMap \<Rightarrow> int" where
  "metaOffset b fm = Offset b + Size b - regionLen fm"

subsection \<open>Example images\<close>

text \<open>
  A boot loader area at a given offset and of a given size, a flash map of that one
  area, and an erased image of \<open>n\<close> bytes whose byte \<open>k\<close> is zero.
\<close>

definition bootAt :: "int \<Rightarrow> int \<Rightarrow> FlashArea" where
  "bootAt off sz = \<lparr>Name = FLASH_AREA_NAME_BOOTLOADER, Id = 0, Device = 0, Offset = off, Size = sz\<rparr>"

definition mapOf :: "FlashArea \<Rightarrow> FlashMap" where
  "mapOf b = \<lparr>Areas = [FLASH_AREA_NAME_BOOTLOADER \<mapsto> b], SortedAreas = [b]\<rparr>"

definition erasedBut :: "nat \<Rightarrow> nat \<Rightarrow> byte list" where
  "erasedBut n k = (replicate n 0xff)[k := 0]"

section \<open>Properties\<close>

subsection \<open>The encoder\<close>

lemma rd16_le16: "rd16 (le16 w @ bs) = w"
  unfolding rd16_def le16_def
  apply (rule bit_word_eqI)
  apply (auto simp: bit_simps)
  done

lemma rd32_le32: "rd32 (le32 w @ bs) = w"
proof -
  have "rd32 (le32 w @ bs) = ucast (ucast w :: byte) OR push_bit 8 (ucast (ucast (drop_bit 8 w) :: byte))
     OR push_bit 16 (ucast (ucast (drop_bit 16 w) :: byte)) OR push_bit 24 (ucast (ucast (drop_bit 24 w) :: byte))"
    by (simp add: rd32_def le32_def)
  also have "\<dots> = w"
  proof (rule bit_word_eqI)
    fix n assume n: "n < LENGTH(32)"
    consider "n < 8" | "8 \<le> n" "n < 16" | "16 \<le> n" "n < 24" | "24 \<le> n"
      by linarith
    then show "bit (ucast (ucast w :: byte) OR push_bit 8 (ucast (ucast (drop_bit 8 w) :: byte))
     OR push_bit 16 (ucast (ucast (drop_bit 16 w) :: byte)) OR push_bit 24 (ucast (ucast (drop_bit 24 w) :: byte)) :: 32 word) n = bit w n"
      using n by cases (auto simp: bit_simps)
  qed
  finally show ?thesis .
qed

lemma le16_ffff: "le16 0xffff = [0xff, 0xff]"
  by (simp add: le16_def)

lemma length_le16 [simp]: "length (le16 w) = 2" by (simp add: le16_def)
lemma length_le32 [simp]: "length (le32 w) = 4" by (simp add: le32_def)

lemma le32_magic: "le32 META_MAGIC = [0x69, 0xa2, 0xb2, 0x3b]"
  by (simp add: le32_def META_MAGIC_def)

lemma length_flashAreaBytes [simp]: "length (flashAreaBytes a) = 14"
  by (simp add: flashAreaBytes_def)

lemma length_concat_flashAreaBytes [simp]: "length (concat (map flashAreaBytes as)) = 14 * length as"
  by (induction as) simp_all

lemma length_regionBytes: "length (regionBytes as) = 46 + 14 * length as"
  by (simp add: regionBytes_def)

lemma writeFlashArea_eq: "writeFlashArea a buf = Inr (buf @ flashAreaBytes a)"
  by (simp add: writeFlashArea_def writeElem_def binary_Write_def metaTlvFlashArea_val_def metaTlvHeader_val_def flashAreaBytes_def META_TLV_CODE_FLASH_AREA_def META_TLV_FLASH_AREA_SZ_def le16_ffff)

lemma writeFlashAreas_eq: "writeFlashAreas as buf = Inr (buf @ concat (map flashAreaBytes as))"
  by (induction as arbitrary: buf) (simp_all add: writeFlashArea_eq)

lemma writeHeader_eq: "writeHeader buf = Inr (buf @ [1, 0xff, 0xff, 0xff])"
  by (simp add: writeHeader_def writeElem_def binary_Write_def metaHeader_val_def META_VERSION_def le16_ffff)

lemma writeZeroHash_eq: "writeZeroHash buf = Inr (buf @ [1, 32] @ replicate 32 0)"
  by (simp add: writeZeroHash_def writeElem_def binary_Write_def metaTlvHash_val_def metaTlvHeader_val_def META_TLV_CODE_HASH_def META_TLV_HASH_SZ_def META_HASH_SZ_def list_all_iff o_def)

lemma writeFooter_eq: "writeFooter buf = Inr (buf @ le16 (of_nat (length buf + 8)) @ [0xff, 0xff] @ le32 META_MAGIC)"
  by (simp add: writeFooter_def writeElem_def binary_Write_def metaFooter_val_def META_FOOTER_SZ_def le16_ffff)

lemma metaRegion_eq: "metaRegion fm = Inr (regionBytes (SortedAreas fm), 6 + 14 * int (length (SortedAreas fm)))"
  by (simp add: metaRegion_def writeHeader_eq writeFlashAreas_eq writeZeroHash_eq writeFooter_eq regionBytes_def META_HASH_SZ_def Let_def add.commute)

lemma length_regionBody: "length (regionBody as) = 38 + 14 * length as"
  by (simp add: regionBody_def)

lemma regionBytes_split:
  "regionBytes as = regionBody as @ le16 (of_nat (46 + 14 * length as)) @ [0xff, 0xff] @ le32 META_MAGIC"
  by (simp add: regionBytes_def regionBody_def)

lemma drop_footer:
  "drop (length (regionBytes as) - 8) (regionBytes as) = le16 (of_nat (46 + 14 * length as)) @ [0xff, 0xff] @ le32 META_MAGIC"
  by (simp add: regionBytes_split length_regionBody)

lemma drop_magic:
  "drop (length (regionBytes as) - 4) (regionBytes as) = le32 META_MAGIC"
  by (simp add: regionBytes_split length_regionBody)

lemma footerSize_regionBytes: "footerSize (regionBytes as) = of_nat (46 + 14 * length as)"
  unfolding footerSize_def drop_footer by (rule rd16_le16)

lemma footerMagic_regionBytes: "footerMagic (regionBytes as) = META_MAGIC"
  unfolding footerMagic_def drop_magic using rd32_le32 [of META_MAGIC "[]"] by simp


text \<open>
  Claim C3, as amended. For every flash map the encoder succeeds; the region has
  \<open>46 + 14 * n\<close> bytes for \<open>n\<close> areas; the footer's 16-bit \<open>size\<close> field holds that length
  modulo \<open>2 ^ 16\<close> (the source converts it with \<open>uint16\<close>), hence the exact length
  whenever the region is shorter than 65536 bytes; and the last four bytes are the magic
  \<open>0x3BB2A269\<close> in little-endian order.
\<close>

theorem footer_size_and_magic:
  "\<exists>buf hashSubOff. metaRegion flashMap = Inr (buf, hashSubOff)
     \<and> length buf = 46 + 14 * length (SortedAreas flashMap)
     \<and> footerSize buf = of_nat (length buf)
     \<and> unat (footerSize buf) = length buf mod 65536
     \<and> (length buf < 65536 \<longrightarrow> unat (footerSize buf) = length buf)
     \<and> drop (length buf - 4) buf = [0x69, 0xa2, 0xb2, 0x3b]
     \<and> footerMagic buf = META_MAGIC"
proof -
  let ?buf = "regionBytes (SortedAreas flashMap)"
  have len: "length ?buf = 46 + 14 * length (SortedAreas flashMap)"
    by (rule length_regionBytes)
  have sz: "footerSize ?buf = of_nat (length ?buf)"
    by (simp only: footerSize_regionBytes len)
  have un: "unat (footerSize ?buf) = length ?buf mod 65536"
    by (simp add: sz unat_of_nat)
  have "metaRegion flashMap = Inr (?buf, 6 + 14 * int (length (SortedAreas flashMap)))"
    by (rule metaRegion_eq)
  moreover have "drop (length ?buf - 4) ?buf = [0x69, 0xa2, 0xb2, 0x3b]"
    by (simp only: drop_magic le32_magic)
  moreover have "length ?buf < 65536 \<longrightarrow> unat (footerSize ?buf) = length ?buf"
    by (simp add: un)
  ultimately show ?thesis
    using len sz un footerMagic_regionBytes by blast
qed

text \<open>An instance: the region of a single area has 60 bytes, and its footer says so.\<close>

theorem footer_size_and_magic_witness:
  "length (encodedRegion \<lparr>Areas = Map.empty, SortedAreas = [nthArea 0]\<rparr>) = 60
   \<and> unat (footerSize (encodedRegion \<lparr>Areas = Map.empty, SortedAreas = [nthArea 0]\<rparr>)) = 60"
  using footer_size_and_magic [of "\<lparr>Areas = Map.empty, SortedAreas = [nthArea 0]\<rparr>"]
  by (auto simp: encodedRegion_def)

text \<open>
  With 4678 areas the region has 65538 bytes and the footer stores 2: the claim as
  stated, for every flash map, fails.
\<close>

theorem footer_size_counterexample:
  "length (encodedRegion manyAreas) = 65538
   \<and> unat (footerSize (encodedRegion manyAreas)) = 2
   \<and> unat (footerSize (encodedRegion manyAreas)) \<noteq> length (encodedRegion manyAreas)"
  by (simp add: encodedRegion_def metaRegion_eq manyAreas_def length_regionBytes footerSize_regionBytes unat_of_nat)

lemma writeTlvHeader_eq: "writeTlvHeader c sz buf = Inr (buf @ [c, sz])"
  by (simp add: writeTlvHeader_def writeElem_def binary_Write_def metaTlvHeader_val_def)

lemma writeElem_error: "writeElem elem buf = Inl err \<longleftrightarrow> \<not> fixedSize elem \<and> err = EncodingFailure"
  by (auto simp: writeElem_def binary_Write_def)

subsection \<open>\<open>insertMeta\<close>\<close>

lemma scanLoop_Some:
  "scanLoop d m s i = Some e \<Longrightarrow> e = IndexOutOfRange \<or> e = RegionSpaceOccupied m"
proof (induction d m s i rule: scanLoop.induct)
  case (1 d m s i)
  from "1.prems" show ?case
    by (subst (asm) scanLoop.simps) (auto split: if_splits dest: "1.IH")
qed

text \<open>
  Claim C9. Every value that the source hands to \<open>writeElem\<close> is of fixed size, so
  none of the writers returns an error, the region is always built, and \<open>insertMeta\<close>
  never returns \<open>EncodingFailure\<close>: what it returns besides a hash offset is one of the
  three errors of the insertion. The run-time panics of Go appear in the list because
  the model has them as values; they are not returned errors.
\<close>

theorem encoding_never_fails:
  "(\<exists>buf'. writeHeader buf = Inr buf')
   \<and> (\<exists>buf'. writeTlvHeader c sz buf = Inr buf')
   \<and> (\<exists>buf'. writeFlashArea area buf = Inr buf')
   \<and> (\<exists>buf'. writeFlashAreas areas buf = Inr buf')
   \<and> (\<exists>buf'. writeZeroHash buf = Inr buf')
   \<and> (\<exists>buf'. writeFooter buf = Inr buf')
   \<and> (\<exists>region. metaRegion flashMap = Inr region)
   \<and> fst (insertMeta section0Data flashMap) \<noteq> Inl EncodingFailure
   \<and> (\<forall>err. fst (insertMeta section0Data flashMap) = Inl err \<longrightarrow>
         err = MissingRequiredArea \<or> (\<exists>boot meta. err = RegionTooLarge boot meta)
         \<or> (\<exists>off. err = RegionSpaceOccupied off)
         \<or> err = IndexOutOfRange \<or> err = SliceOutOfRange)"
proof -
  have ne: "fst (insertMeta section0Data flashMap) \<noteq> Inl EncodingFailure"
    by (auto simp: insertMeta_def metaRegion_eq Let_def split: option.splits dest: scanLoop_Some)
  have "err = MissingRequiredArea \<or> (\<exists>boot meta. err = RegionTooLarge boot meta)
         \<or> (\<exists>off. err = RegionSpaceOccupied off)
         \<or> err = IndexOutOfRange \<or> err = SliceOutOfRange"
    if "fst (insertMeta section0Data flashMap) = Inl err" for err
    using that ne by (cases err) auto
  then show ?thesis
    using ne by (simp add: writeHeader_eq writeTlvHeader_eq writeFlashArea_eq writeFlashAreas_eq
        writeZeroHash_eq writeFooter_eq metaRegion_eq)
qed

text \<open>An instance: without a boot loader area the error is the missing area.\<close>

theorem encoding_never_fails_witness:
  "fst (insertMeta [] \<lparr>Areas = Map.empty, SortedAreas = []\<rparr>) = Inl MissingRequiredArea"
  using encoding_never_fails [of "[]" 0 0 "nthArea 0" "[]" "\<lparr>Areas = Map.empty, SortedAreas = []\<rparr>" "[]"]
  by (simp add: insertMeta_def metaRegion_eq)

subsection \<open>The hash patcher\<close>

lemma fold_zero:
  "off + n \<le> length blob \<Longrightarrow>
   fold (\<lambda>i b. b[off + i := 0]) [0..<n] blob = take off blob @ replicate n (0::byte) @ drop (off + n) blob"
proof (induction n)
  case 0
  then show ?case by simp
next
  case (Suc n)
  then have le: "off + n < length blob" by simp
  have d: "drop (off + n) blob = blob ! (off + n) # drop (Suc (off + n)) blob"
    using le by (simp add: Cons_nth_drop_Suc)
  have "fold (\<lambda>i b. b[off + i := 0]) [0..<Suc n] blob
        = (take off blob @ replicate n 0 @ drop (off + n) blob)[off + n := 0]"
    using Suc by simp
  also have "\<dots> = take off blob @ replicate n 0 @ (0 # drop (Suc (off + n)) blob)"
    using le by (simp add: d list_update_append)
  also have "\<dots> = take off blob @ replicate (Suc n) 0 @ drop (off + Suc n) blob"
    by (simp add: replicate_append_same)
  finally show ?case .
qed

lemma calcMetaHash_valid:
  assumes "0 \<le> hashOffset" "hashOffset + 32 \<le> int (length blob)"
  shows "calcMetaHash Sum256 blob hashOffset
         = Inr (Sum256 (hashFieldZeroed blob (nat hashOffset)), blob)"
proof -
  let ?off = "nat hashOffset"
  have le: "?off + 32 \<le> length blob" using assms by linarith
  have old: "go_copy (replicate 32 0) 0 32 (take 32 (drop ?off blob)) = take 32 (drop ?off blob)"
    using le by (simp add: go_copy_def)
  have z: "fold (\<lambda>i b. b[?off + i := 0]) [0..<32] blob = hashFieldZeroed blob ?off"
    using le by (simp add: fold_zero hashFieldZeroed_def)
  have r: "go_copy (hashFieldZeroed blob ?off) ?off (?off + 32) (take 32 (drop ?off blob)) = blob"
  proof -
    have "go_copy (hashFieldZeroed blob ?off) ?off (?off + 32) (take 32 (drop ?off blob))
          = take ?off blob @ take 32 (drop ?off blob) @ drop (?off + 32) blob"
      using le by (simp add: go_copy_def hashFieldZeroed_def)
    also have "\<dots> = take ?off blob @ drop ?off blob"
      by (metis append_take_drop_id drop_drop add.commute)
    finally show ?thesis by simp
  qed
  show ?thesis
    using assms by (simp add: calcMetaHash_def META_HASH_SZ_def Let_def old z r)
qed

lemma calcMetaHash_invalid:
  "hashOffset < 0 \<or> int (length blob) < hashOffset + 32 \<Longrightarrow>
   calcMetaHash Sum256 blob hashOffset = Inl SliceOutOfRange"
  by (simp add: calcMetaHash_def META_HASH_SZ_def)

lemma fillMetaHash_valid:
  assumes "0 \<le> hashOffset" "hashOffset + 32 \<le> int (length blob)"
  shows "fillMetaHash Sum256 blob hashOffset
         = Inr (go_copy blob (nat hashOffset) (nat hashOffset + 32)
                  (Sum256 (hashFieldZeroed blob (nat hashOffset))))"
  by (simp add: fillMetaHash_def calcMetaHash_valid [OF assms] META_HASH_SZ_def)


lemma length_go_copy: "lo \<le> hi \<Longrightarrow> hi \<le> length dst \<Longrightarrow> length (go_copy dst lo hi src) = length dst"
  by (simp add: go_copy_def Let_def min_def)

lemma nth_go_copy:
  "lo \<le> hi \<Longrightarrow> hi \<le> length dst \<Longrightarrow> i < length dst \<Longrightarrow>
   go_copy dst lo hi src ! i =
     (if lo \<le> i \<and> i < lo + min (hi - lo) (length src) then src ! (i - lo) else dst ! i)"
  by (auto simp: go_copy_def Let_def nth_append min_def)

text \<open>
  Claim C2. For a digest function of 32 bytes and an offset with
  \<open>0 \<le> hashOffset\<close> and \<open>hashOffset + 32 \<le> len(blob)\<close>, \<open>fillMetaHash\<close> returns, and the
  32 bytes of the patched image at \<open>hashOffset\<close> are the digest of the patched image
  with those bytes replaced by zero; \<open>calcMetaHash\<close> on the patched image computes
  that value again.
\<close>

theorem hash_round_trip:
  assumes digest: "\<And>b. length (Sum256 b) = 32"
    and valid: "0 \<le> hashOffset" "hashOffset + 32 \<le> int (length blob)"
  shows "\<exists>patched. fillMetaHash Sum256 blob hashOffset = Inr patched
     \<and> length patched = length blob
     \<and> take 32 (drop (nat hashOffset) patched) = Sum256 (hashFieldZeroed patched (nat hashOffset))
     \<and> calcMetaHash Sum256 patched hashOffset
         = Inr (take 32 (drop (nat hashOffset) patched), patched)"
proof -
  let ?off = "nat hashOffset"
  let ?h = "Sum256 (hashFieldZeroed blob ?off)"
  let ?p = "take ?off blob @ ?h @ drop (?off + 32) blob"
  have le: "?off + 32 \<le> length blob" using valid by linarith
  have fill: "fillMetaHash Sum256 blob hashOffset = Inr ?p"
    using le by (simp add: fillMetaHash_valid [OF valid] go_copy_def digest)
  have len: "length ?p = length blob"
    using le by (simp add: digest)
  have field: "take 32 (drop ?off ?p) = ?h"
    using le by (simp add: digest)
  have zeroed: "hashFieldZeroed ?p ?off = hashFieldZeroed blob ?off"
    using le by (simp add: hashFieldZeroed_def digest)
  have valid': "hashOffset + 32 \<le> int (length ?p)"
    using valid len by simp
  have calc: "calcMetaHash Sum256 ?p hashOffset = Inr (take 32 (drop ?off ?p), ?p)"
    by (simp only: calcMetaHash_valid [OF valid(1) valid'] zeroed field)
  show ?thesis
    using fill len field zeroed calc by (intro exI [of _ ?p]) simp
qed

text \<open>An instance, with the stand-in digest on an image of 40 bytes.\<close>

theorem hash_round_trip_witness:
  "\<exists>patched. fillMetaHash lengthDigest (replicate 40 7) 4 = Inr patched
     \<and> take 32 (drop 4 patched) = replicate 32 40"
  using hash_round_trip [of lengthDigest 4 "replicate 40 7"]
  by (auto simp: lengthDigest_def hashFieldZeroed_def)

text \<open>
  Claim C8. For a valid offset and any digest function, \<open>calcMetaHash\<close> leaves the
  image as it found it, and \<open>fillMetaHash\<close> changes no byte outside
  \<open>[hashOffset, hashOffset + 32)\<close> and not the length.
\<close>

theorem hash_patcher_frame:
  assumes valid: "0 \<le> hashOffset" "hashOffset + 32 \<le> int (length blob)"
  shows "(\<exists>hash. calcMetaHash Sum256 blob hashOffset = Inr (hash, blob))
     \<and> (\<exists>patched. fillMetaHash Sum256 blob hashOffset = Inr patched
           \<and> length patched = length blob
           \<and> (\<forall>i<length blob. i < nat hashOffset \<or> nat hashOffset + 32 \<le> i
                  \<longrightarrow> patched ! i = blob ! i))"
proof -
  let ?off = "nat hashOffset"
  have le: "?off + 32 \<le> length blob" using valid by linarith
  let ?p = "go_copy blob ?off (?off + 32) (Sum256 (hashFieldZeroed blob ?off))"
  have "length ?p = length blob"
    using le by (simp add: length_go_copy)
  moreover have "\<forall>i<length blob. i < ?off \<or> ?off + 32 \<le> i \<longrightarrow> ?p ! i = blob ! i"
    using le by (auto simp: nth_go_copy)
  ultimately show ?thesis
    by (simp add: calcMetaHash_valid [OF valid] fillMetaHash_valid [OF valid])
qed

text \<open>An instance: the bytes at 3 and at 36 keep their value.\<close>

theorem hash_patcher_frame_witness:
  "\<exists>patched. fillMetaHash lengthDigest (replicate 40 7) 4 = Inr patched
     \<and> length patched = 40 \<and> patched ! 3 = 7 \<and> patched ! 36 = 7"
  using hash_patcher_frame [of 4 "replicate 40 7" lengthDigest]
  by auto

subsection \<open>The TLVs of the region\<close>

lemma length_flashAreaPayload: "length (flashAreaPayload a) = 12"
  by (simp add: flashAreaPayload_def)

lemma flashAreaBytes_split: "flashAreaBytes a = [0x02, 12] @ flashAreaPayload a"
  by (simp add: flashAreaPayload_def flashAreaBytes_def)

lemma readTlvs_flashArea:
  "readTlvs (flashAreaBytes a @ rest) = (0x02, flashAreaPayload a) # readTlvs rest"
  by (simp add: flashAreaBytes_split length_flashAreaPayload)

lemma readTlvs_areas:
  "readTlvs (concat (map flashAreaBytes as) @ rest)
   = map (\<lambda>a. (0x02, flashAreaPayload a)) as @ readTlvs rest"
  by (induction as) (simp_all add: readTlvs_flashArea)

lemma readTlvs_hash: "readTlvs ([1, 32] @ replicate 32 0) = [(1, replicate 32 0)]"
  by simp

lemma tlvSection_regionBytes:
  "tlvSection (regionBytes as) = concat (map flashAreaBytes as) @ [1, 32] @ replicate 32 0"
  by (simp add: tlvSection_def regionBytes_def)

lemma payload_fields:
  "tlvAreaId (flashAreaPayload a) = word_of_int (Id a)"
  "tlvDeviceId (flashAreaPayload a) = word_of_int (Device a)"
  "tlvOffset (flashAreaPayload a) = word_of_int (Offset a)"
  "tlvSize (flashAreaPayload a) = word_of_int (Size a)"
proof -
  have p: "flashAreaPayload a = [word_of_int (Id a), word_of_int (Device a), 0xff, 0xff]
             @ le32 (word_of_int (Offset a)) @ le32 (word_of_int (Size a))"
    by (simp add: flashAreaPayload_def flashAreaBytes_def)
  show "tlvAreaId (flashAreaPayload a) = word_of_int (Id a)"
    and "tlvDeviceId (flashAreaPayload a) = word_of_int (Device a)"
    by (simp_all add: p tlvAreaId_def tlvDeviceId_def)
  show "tlvOffset (flashAreaPayload a) = word_of_int (Offset a)"
    by (simp add: p tlvOffset_def rd32_le32)
  show "tlvSize (flashAreaPayload a) = word_of_int (Size a)"
    using rd32_le32 [of "word_of_int (Size a)" "[]"] by (simp add: p tlvSize_def)
qed

lemma uint8_exact: "0 \<le> x \<Longrightarrow> x < 256 \<Longrightarrow> uint (word_of_int x :: 8 word) = x"
  by (simp add: uint_word_of_int_eq take_bit_int_eq_self)

lemma uint32_exact: "0 \<le> x \<Longrightarrow> x < 4294967296 \<Longrightarrow> uint (word_of_int x :: 32 word) = x"
  by (simp add: uint_word_of_int_eq take_bit_int_eq_self)

text \<open>
  Claim C6, as amended. The TLVs of the region are one flash-area TLV (code \<open>0x02\<close>,
  payload of 12 bytes) per area of the sorted sequence, in its order, followed by the
  hash TLV. The payload holds the area's id and device converted with \<open>uint8\<close> and its
  offset and size converted with \<open>uint32\<close>: the values themselves when they are in the
  range of the field, their low bits otherwise.
\<close>

theorem flash_area_tlvs:
  "\<exists>buf hashSubOff. metaRegion flashMap = Inr (buf, hashSubOff)
     \<and> readTlvs (tlvSection buf)
         = map (\<lambda>area. (META_TLV_CODE_FLASH_AREA, flashAreaPayload area)) (SortedAreas flashMap)
           @ [(META_TLV_CODE_HASH, replicate 32 0)]
     \<and> (\<forall>area. length (flashAreaPayload area) = 12
           \<and> tlvAreaId (flashAreaPayload area) = word_of_int (Id area)
           \<and> tlvDeviceId (flashAreaPayload area) = word_of_int (Device area)
           \<and> tlvOffset (flashAreaPayload area) = word_of_int (Offset area)
           \<and> tlvSize (flashAreaPayload area) = word_of_int (Size area)
           \<and> (0 \<le> Id area \<and> Id area < 256 \<longrightarrow> uint (tlvAreaId (flashAreaPayload area)) = Id area)
           \<and> (0 \<le> Device area \<and> Device area < 256
                \<longrightarrow> uint (tlvDeviceId (flashAreaPayload area)) = Device area)
           \<and> (0 \<le> Offset area \<and> Offset area < 4294967296
                \<longrightarrow> uint (tlvOffset (flashAreaPayload area)) = Offset area)
           \<and> (0 \<le> Size area \<and> Size area < 4294967296
                \<longrightarrow> uint (tlvSize (flashAreaPayload area)) = Size area))"
proof -
  have "readTlvs (tlvSection (regionBytes (SortedAreas flashMap)))
         = map (\<lambda>area. (META_TLV_CODE_FLASH_AREA, flashAreaPayload area)) (SortedAreas flashMap)
           @ [(META_TLV_CODE_HASH, replicate 32 0)]"
    by (simp only: tlvSection_regionBytes readTlvs_areas readTlvs_hash
          META_TLV_CODE_FLASH_AREA_def META_TLV_CODE_HASH_def)
  then show ?thesis
    by (simp add: metaRegion_eq length_flashAreaPayload payload_fields uint8_exact uint32_exact)
qed

text \<open>An instance: an area with id 3 at offset 12288.\<close>

theorem flash_area_tlvs_witness:
  "readTlvs (tlvSection (encodedRegion \<lparr>Areas = Map.empty, SortedAreas = [nthArea 3]\<rparr>))
     = [(2, flashAreaPayload (nthArea 3)), (1, replicate 32 0)]
   \<and> uint (tlvAreaId (flashAreaPayload (nthArea 3))) = 3
   \<and> uint (tlvDeviceId (flashAreaPayload (nthArea 3))) = 0
   \<and> uint (tlvOffset (flashAreaPayload (nthArea 3))) = 12288
   \<and> uint (tlvSize (flashAreaPayload (nthArea 3))) = 4096"
  using flash_area_tlvs [of "\<lparr>Areas = Map.empty, SortedAreas = [nthArea 3]\<rparr>"]
  by (auto simp: encodedRegion_def nthArea_def META_TLV_CODE_FLASH_AREA_def META_TLV_CODE_HASH_def)

text \<open>
  An area with id 257 and size \<open>2 ^ 32 + 4096\<close> is written with id 1 and size 4096:
  its values are not reproduced verbatim.
\<close>

theorem flash_area_tlvs_counterexample:
  "readTlvs (tlvSection (encodedRegion wideMap)) = [(2, flashAreaPayload wideArea), (1, replicate 32 0)]
   \<and> uint (tlvAreaId (flashAreaPayload wideArea)) = 1 \<and> Id wideArea = 257
   \<and> uint (tlvSize (flashAreaPayload wideArea)) = 4096 \<and> Size wideArea = 4294971392"
  by (simp add: encodedRegion_def metaRegion_eq wideMap_def tlvSection_regionBytes readTlvs_flashArea
        payload_fields) (simp add: wideArea_def)

subsection \<open>Closed form of the insertion\<close>

lemma go_int_id: "goInt x \<Longrightarrow> go_int x = x"
  by (simp add: goInt_def go_int_def)

lemma go_int_sub: "go_int (go_int a - b) = go_int (a - b)"
proof -
  have e1: "(a + 2 ^ 63) mod 2 ^ 64 - 2 ^ 63 - b + 2 ^ 63 = (a + 2 ^ 63) mod 2 ^ 64 - b"
    by simp
  have e2: "a - b + 2 ^ 63 = a + 2 ^ 63 - b"
    by simp
  show ?thesis
    by (simp only: go_int_def e1 e2 mod_diff_left_eq)
qed

lemma go_int_over:
  assumes "2 ^ 63 \<le> x" "x < 2 ^ 64"
  shows "go_int x = x - 2 ^ 64"
proof -
  have e: "x + 2 ^ 63 = (x - 2 ^ 63) + (2 ^ 64 :: int)"
    by simp
  have "(x + 2 ^ 63) mod 2 ^ 64 = ((x - 2 ^ 63) + 2 ^ 64) mod (2 ^ 64 :: int)"
    by (subst e) (rule refl)
  also have "\<dots> = (x - 2 ^ 63) mod 2 ^ 64"
    by (rule mod_add_self2)
  also have "\<dots> = x - 2 ^ 63"
    using assms by (intro mod_pos_pos_trivial) simp_all
  finally show ?thesis by (simp add: go_int_def)
qed

lemma scanLoop_None:
  "scanLoop d m s i = None \<longleftrightarrow>
     (\<forall>j. i \<le> j \<and> j < s \<longrightarrow> 0 \<le> j \<and> j < int (length d) \<and> d ! nat j = 0xff)"
proof (induction d m s i rule: scanLoop.induct)
  case (1 d m s i)
  show ?case
  proof (cases "i < s")
    case False
    then show ?thesis by (subst scanLoop.simps) auto
  next
    case True
    show ?thesis
    proof (cases "i < 0 \<or> int (length d) \<le> i \<or> d ! nat i \<noteq> 0xff")
      case bad: True
      have a: "scanLoop d m s i \<noteq> None"
        using True bad by (subst scanLoop.simps) auto
      have b: "\<not> (\<forall>j. i \<le> j \<and> j < s \<longrightarrow> 0 \<le> j \<and> j < int (length d) \<and> d ! nat j = 0xff)"
      proof
        assume "\<forall>j. i \<le> j \<and> j < s \<longrightarrow> 0 \<le> j \<and> j < int (length d) \<and> d ! nat j = 0xff"
        from this [rule_format, of i] True bad show False by auto
      qed
      from a b show ?thesis by blast
    next
      case good: False
      then have inr: "\<not> (i < 0 \<or> int (length d) \<le> i)" and ff: "\<not> d ! nat i \<noteq> 0xff"
        by auto
      have step: "scanLoop d m s i = scanLoop d m s (i + 1)"
        using True good by (subst scanLoop.simps) simp
      have "(\<forall>j. i \<le> j \<and> j < s \<longrightarrow> 0 \<le> j \<and> j < int (length d) \<and> d ! nat j = 0xff)
            \<longleftrightarrow> (\<forall>j. i + 1 \<le> j \<and> j < s \<longrightarrow> 0 \<le> j \<and> j < int (length d) \<and> d ! nat j = 0xff)"
        (is "?A \<longleftrightarrow> ?B")
      proof
        assume ?A then show ?B by simp
      next
        assume b: ?B
        show ?A
        proof (intro allI impI)
          fix j assume j: "i \<le> j \<and> j < s"
          show "0 \<le> j \<and> j < int (length d) \<and> d ! nat j = 0xff"
          proof (cases "j = i")
            case True
            then show ?thesis using good by simp
          next
            case False
            with j have "i + 1 \<le> j \<and> j < s" by simp
            with b show ?thesis by blast
          qed
        qed
      qed
      with step "1.IH" [OF True inr ff] show ?thesis by simp
    qed
  qed
qed

lemma insertMeta_im:
  assumes boot: "Areas fm FLASH_AREA_NAME_BOOTLOADER = Some b"
  shows "insertMeta d fm =
     (if Size b < regionLen fm
      then (Inl (RegionTooLarge (Size b) (regionLen fm)), d)
      else case scanLoop d (go_int (metaOffset b fm)) (Size b) (go_int (metaOffset b fm)) of
        Some e \<Rightarrow> (Inl e, d)
      | None \<Rightarrow>
          if go_int (metaOffset b fm) < 0 \<or> int (length d) < go_int (metaOffset b fm)
          then (Inl SliceOutOfRange, d)
          else (Inr (go_int (go_int (metaOffset b fm) + (regionLen fm - 40))),
                go_copy d (nat (go_int (metaOffset b fm))) (length d) (regionBytes (SortedAreas fm))))"
  using boot
  by (simp add: insertMeta_def metaRegion_eq length_regionBytes Let_def go_int_sub
        regionLen_def metaOffset_def split: option.splits)

lemma insertMeta_closed:
  assumes boot: "Areas fm FLASH_AREA_NAME_BOOTLOADER = Some b"
    and ty: "goInt (Offset b)" "goInt (Size b)"
    and mem: "int (length d) + regionLen fm < 2 ^ 63"
  shows "insertMeta d fm =
    (if Size b < regionLen fm then (Inl (RegionTooLarge (Size b) (regionLen fm)), d)
     else if 2 ^ 63 \<le> metaOffset b fm then (Inl IndexOutOfRange, d)
     else case scanLoop d (metaOffset b fm) (Size b) (metaOffset b fm) of
        Some e \<Rightarrow> (Inl e, d)
      | None \<Rightarrow>
          if metaOffset b fm < 0 \<or> int (length d) < metaOffset b fm
          then (Inl SliceOutOfRange, d)
          else (Inr (metaOffset b fm + (regionLen fm - 40)),
                go_copy d (nat (metaOffset b fm)) (length d) (regionBytes (SortedAreas fm))))"
proof (cases "Size b < regionLen fm")
  case True
  then show ?thesis by (simp add: insertMeta_im [OF boot])
next
  case fits: False
  have Lpos: "46 \<le> regionLen fm" by (simp add: regionLen_def)
  have Lhi: "regionLen fm < 2 ^ 63" using mem by simp
  have tlo: "- (2 ^ 63) \<le> metaOffset b fm"
    using ty fits by (simp add: metaOffset_def goInt_def)
  have thi: "metaOffset b fm < 2 ^ 64"
    using ty Lpos by (simp add: metaOffset_def goInt_def)
  show ?thesis
  proof (cases "2 ^ 63 \<le> metaOffset b fm")
    case True
    then have wneg: "go_int (metaOffset b fm) < 0"
      using thi by (simp add: go_int_over)
    have "go_int (metaOffset b fm) < Size b"
      using wneg fits Lpos by simp
    then have "scanLoop d (go_int (metaOffset b fm)) (Size b) (go_int (metaOffset b fm))
               = Some IndexOutOfRange"
      using wneg by (subst scanLoop.simps) simp
    with True fits show ?thesis by (simp add: insertMeta_im [OF boot])
  next
    case False
    then have wt: "go_int (metaOffset b fm) = metaOffset b fm"
      using tlo by (simp add: go_int_id goInt_def)
    have ret: "go_int (metaOffset b fm + (regionLen fm - 40)) = metaOffset b fm + (regionLen fm - 40)"
      if "\<not> (metaOffset b fm < 0 \<or> int (length d) < metaOffset b fm)"
      using that mem Lpos by (intro go_int_id) (simp add: goInt_def)
    from False fits show ?thesis
      by (simp add: insertMeta_im [OF boot] wt ret split: option.splits)
  qed
qed

subsection \<open>The scan of the destination\<close>

lemma scanLoop_IndexOutOfRange:
  "scanLoop d m s i = Some IndexOutOfRange \<Longrightarrow>
   \<exists>j. i \<le> j \<and> j < s \<and> (j < 0 \<or> int (length d) \<le> j)"
proof (induction d m s i rule: scanLoop.induct)
  case (1 d m s i)
  show ?case
  proof (cases "i < s \<and> \<not> (i < 0 \<or> int (length d) \<le> i) \<and> d ! nat i = 0xff")
    case True
    then have "scanLoop d m s (i + 1) = Some IndexOutOfRange"
      using "1.prems" by (subst (asm) scanLoop.simps) simp
    with True "1.IH" obtain j where "i + 1 \<le> j \<and> j < s \<and> (j < 0 \<or> int (length d) \<le> j)"
      by blast
    then have "i \<le> j \<and> j < s \<and> (j < 0 \<or> int (length d) \<le> j)" by simp
    then show ?thesis by blast
  next
    case False
    then have "i < s \<and> (i < 0 \<or> int (length d) \<le> i)"
      using "1.prems" by (subst (asm) scanLoop.simps) (auto split: if_splits)
    then show ?thesis by (intro exI [of _ i]) simp
  qed
qed

lemma scanLoop_Occupied:
  assumes "0 \<le> i" "s \<le> int (length d)"
  shows "scanLoop d m s i = Some (RegionSpaceOccupied m)
     \<longleftrightarrow> (\<exists>j. i \<le> j \<and> j < s \<and> d ! nat j \<noteq> 0xff)"
proof
  assume "scanLoop d m s i = Some (RegionSpaceOccupied m)"
  then have "scanLoop d m s i \<noteq> None" by simp
  then obtain j where "i \<le> j \<and> j < s" "\<not> (0 \<le> j \<and> j < int (length d) \<and> d ! nat j = 0xff)"
    unfolding scanLoop_None by blast
  with assms show "\<exists>j. i \<le> j \<and> j < s \<and> d ! nat j \<noteq> 0xff"
    by (intro exI [of _ j]) auto
next
  assume "\<exists>j. i \<le> j \<and> j < s \<and> d ! nat j \<noteq> 0xff"
  then have "scanLoop d m s i \<noteq> None"
    unfolding scanLoop_None by blast
  then obtain e where e: "scanLoop d m s i = Some e" by blast
  have "e \<noteq> IndexOutOfRange"
  proof
    assume "e = IndexOutOfRange"
    with e scanLoop_IndexOutOfRange [of d m s i] assms show False by auto
  qed
  with e scanLoop_Some [of d m s i e] show "scanLoop d m s i = Some (RegionSpaceOccupied m)"
    by simp
qed

lemma regionLen_mapOf: "regionLen (mapOf b) = 60"
  by (simp add: regionLen_def mapOf_def)

lemma boot_mapOf: "Areas (mapOf b) FLASH_AREA_NAME_BOOTLOADER = Some b"
  by (simp add: mapOf_def)

text \<open>
  Claim C1. For a boot loader area that accommodates the region and an image that
  extends to index \<open>bootArea.Size\<close>, \<open>insertMeta\<close> returns the error "Boot loader extends
  into meta region" if and only if a byte of the image with an index in
  \<open>[metaOffset, bootArea.Size)\<close> is not \<open>0xff\<close>: the loop of the source runs while
  \<open>i < bootArea.Size\<close>, so the scanned window ends at \<open>bootArea.Size\<close> and not at
  \<open>bootArea.Offset + bootArea.Size\<close>.
\<close>

theorem scan_window:
  assumes boot: "Areas fm FLASH_AREA_NAME_BOOTLOADER = Some b"
    and ty: "goInt (Offset b)" "goInt (Size b)"
    and mem: "int (length d) + regionLen fm < 2 ^ 63"
    and fits: "regionLen fm \<le> Size b"
    and inside: "0 \<le> metaOffset b fm" "Size b \<le> int (length d)"
  shows "fst (insertMeta d fm) = Inl (RegionSpaceOccupied (metaOffset b fm))
     \<longleftrightarrow> (\<exists>j. metaOffset b fm \<le> j \<and> j < Size b \<and> d ! nat j \<noteq> 0xff)"
proof (cases "2 ^ 63 \<le> metaOffset b fm")
  case True
  have "Size b < 2 ^ 63" using inside mem by (simp add: regionLen_def)
  with True have "\<not> (\<exists>j. metaOffset b fm \<le> j \<and> j < Size b \<and> d ! nat j \<noteq> 0xff)" by auto
  with True fits show ?thesis
    by (simp add: insertMeta_closed [OF boot ty mem])
next
  case False
  let ?t = "metaOffset b fm"
  have occ: "(\<exists>j. ?t \<le> j \<and> j < Size b \<and> d ! nat j \<noteq> 0xff)
      \<longleftrightarrow> scanLoop d ?t (Size b) ?t = Some (RegionSpaceOccupied ?t)"
    by (rule scanLoop_Occupied [OF inside, symmetric])
  show ?thesis
  proof (cases "scanLoop d ?t (Size b) ?t")
    case None
    with False fits show ?thesis
      unfolding occ by (simp add: insertMeta_closed [OF boot ty mem])
  next
    case (Some e)
    with False fits show ?thesis
      unfolding occ by (simp add: insertMeta_closed [OF boot ty mem])
  qed
qed

text \<open>
  An instance: an area at offset 0 of 100 bytes, the region starts at 40, and the
  byte at 50 is zero.
\<close>

theorem scan_window_witness:
  "fst (insertMeta (erasedBut 100 50) (mapOf (bootAt 0 100))) = Inl (RegionSpaceOccupied 40)"
proof -
  have "\<exists>j::int. 40 \<le> j \<and> j < 100 \<and> erasedBut 100 50 ! nat j \<noteq> 0xff"
    by (intro exI [of _ 50]) (simp add: erasedBut_def)
  with scan_window [of "mapOf (bootAt 0 100)" "bootAt 0 100" "erasedBut 100 50"]
  show ?thesis
    by (simp add: boot_mapOf regionLen_mapOf metaOffset_def goInt_def bootAt_def erasedBut_def)
qed

text \<open>
  An area at offset 100 of 100 bytes: the region starts at 140 and its window ends at
  200. The byte at 150 is zero, the loop \<open>for i := 140; i < 100; i++\<close> reads no byte, and
  \<open>insertMeta\<close> returns the offset 160 of the hash.
\<close>

theorem scan_window_counterexample:
  "fst (insertMeta (erasedBut 200 150) (mapOf (bootAt 100 100))) = Inr 160
   \<and> erasedBut 200 150 ! 150 = 0"
  by (simp add: insertMeta_closed [OF boot_mapOf] regionLen_mapOf metaOffset_def goInt_def
        bootAt_def erasedBut_def scanLoop.simps)

subsection \<open>The image after the insertion\<close>


lemma insertMeta_success:
  assumes boot: "Areas fm FLASH_AREA_NAME_BOOTLOADER = Some b"
    and ty: "goInt (Offset b)" "goInt (Size b)"
    and mem: "int (length d) + regionLen fm < 2 ^ 63"
    and ok: "fst (insertMeta d fm) = Inr off"
  shows "regionLen fm \<le> Size b" "0 \<le> metaOffset b fm" "metaOffset b fm \<le> int (length d)"
    "off = metaOffset b fm + (regionLen fm - 40)"
    "scanLoop d (metaOffset b fm) (Size b) (metaOffset b fm) = None"
    "snd (insertMeta d fm)
       = go_copy d (nat (metaOffset b fm)) (length d) (regionBytes (SortedAreas fm))"
  using ok unfolding insertMeta_closed [OF boot ty mem]
  by (auto split: if_splits option.splits)

lemma Offset_bootAt [simp]: "Offset (bootAt off sz) = off" by (simp add: bootAt_def)
lemma Size_bootAt [simp]: "Size (bootAt off sz) = sz" by (simp add: bootAt_def)
lemma SortedAreas_mapOf [simp]: "SortedAreas (mapOf b) = [b]" by (simp add: mapOf_def)


lemma ex_success:
  "insertMeta (replicate 100 0xff) (mapOf (bootAt 0 100))
     = (Inr 60, replicate 40 0xff @ regionBytes [bootAt 0 100])"
proof -
  have "scanLoop (replicate 100 0xff) 40 100 40 = None"
    unfolding scanLoop_None by auto
  then show ?thesis
    by (simp add: insertMeta_closed [OF boot_mapOf] regionLen_mapOf metaOffset_def goInt_def
        go_copy_def length_regionBytes)
qed





subsection \<open>The place of the region\<close>

lemma insertMeta_not_too_large:
  assumes boot: "Areas fm FLASH_AREA_NAME_BOOTLOADER = Some b"
    and ty: "goInt (Offset b)" "goInt (Size b)"
    and mem: "int (length d) + regionLen fm < 2 ^ 63"
    and fits: "regionLen fm \<le> Size b"
  shows "fst (insertMeta d fm) \<noteq> Inl (RegionTooLarge x y)"
proof (cases "scanLoop d (metaOffset b fm) (Size b) (metaOffset b fm)")
  case None
  with fits show ?thesis by (simp add: insertMeta_closed [OF boot ty mem])
next
  case (Some e)
  then have "e = IndexOutOfRange \<or> e = RegionSpaceOccupied (metaOffset b fm)"
    by (rule scanLoop_Some)
  with Some fits show ?thesis by (auto simp: insertMeta_closed [OF boot ty mem])
qed

text \<open>
  Claim C4. For a boot loader area whose \<open>Offset\<close> and \<open>Size\<close> are values of Go's \<open>int\<close>:
  \<^item> when \<open>insertMeta\<close> returns an offset, the copy starts at
    \<open>metaOffset = bootArea.Offset + bootArea.Size - regionLength\<close>, every byte of the
    region that the image has room for is at \<open>metaOffset\<close> plus its index, and the offset
    returned is \<open>metaOffset\<close> plus the offset of the hash in the region,
    \<open>regionLength - 40\<close>;
  \<^item> when \<open>bootArea.Size\<close> is the length of the region, \<open>metaOffset\<close> is
    \<open>bootArea.Offset\<close> and the error is never "Boot loader flash area too small";
  \<^item> when moreover the image extends to the end of the area and is erased there,
    \<open>insertMeta\<close> returns the offset and the image with the region at
    \<open>bootArea.Offset\<close>;
  \<^item> when \<open>bootArea.Size\<close> is one less than the length of the region, \<open>insertMeta\<close>
    returns the error "Boot loader flash area too small" with both sizes, and the image
    as it was.
\<close>

theorem placement_flush:
  assumes boot: "Areas fm FLASH_AREA_NAME_BOOTLOADER = Some b"
    and ty: "goInt (Offset b)" "goInt (Size b)"
    and mem: "int (length d) + regionLen fm < 2 ^ 63"
  shows "(\<forall>off. fst (insertMeta d fm) = Inr off \<longrightarrow>
            0 \<le> metaOffset b fm
          \<and> off = metaOffset b fm + (regionLen fm - 40)
          \<and> snd (insertMeta d fm)
              = go_copy d (nat (metaOffset b fm)) (length d) (regionBytes (SortedAreas fm))
          \<and> (\<forall>i<length (regionBytes (SortedAreas fm)). nat (metaOffset b fm) + i < length d \<longrightarrow>
                snd (insertMeta d fm) ! (nat (metaOffset b fm) + i)
                  = regionBytes (SortedAreas fm) ! i))
     \<and> (Size b = regionLen fm \<longrightarrow>
            metaOffset b fm = Offset b
          \<and> (\<forall>x y. fst (insertMeta d fm) \<noteq> Inl (RegionTooLarge x y)))
     \<and> (Size b = regionLen fm \<and> 0 \<le> Offset b \<and> Offset b + Size b \<le> int (length d)
          \<and> (\<forall>j. Offset b \<le> j \<and> j < Offset b + Size b \<longrightarrow> d ! nat j = 0xff) \<longrightarrow>
            insertMeta d fm
              = (Inr (Offset b + (regionLen fm - 40)),
                 take (nat (Offset b)) d @ regionBytes (SortedAreas fm)
                   @ drop (nat (Offset b) + length (regionBytes (SortedAreas fm))) d))
     \<and> (Size b = regionLen fm - 1 \<longrightarrow>
            insertMeta d fm = (Inl (RegionTooLarge (Size b) (regionLen fm)), d))"
proof -
  let ?t = "metaOffset b fm"
  let ?r = "regionBytes (SortedAreas fm)"
  have A: "0 \<le> ?t \<and> off = ?t + (regionLen fm - 40)
          \<and> snd (insertMeta d fm) = go_copy d (nat ?t) (length d) ?r
          \<and> (\<forall>i<length ?r. nat ?t + i < length d \<longrightarrow>
                snd (insertMeta d fm) ! (nat ?t + i) = ?r ! i)"
    if ok: "fst (insertMeta d fm) = Inr off" for off
  proof -
    note s = insertMeta_success [OF boot ty mem ok]
    have t: "0 \<le> ?t" "?t \<le> int (length d)" by (rule s)+
    have o: "off = ?t + (regionLen fm - 40)" by (rule s)
    have r: "snd (insertMeta d fm) = go_copy d (nat ?t) (length d) ?r" by (rule s)
    have le: "nat ?t \<le> length d" using t by linarith
    have n: "\<forall>i<length ?r. nat ?t + i < length d \<longrightarrow>
                snd (insertMeta d fm) ! (nat ?t + i) = ?r ! i"
      unfolding r using le by (auto simp: nth_go_copy)
    from t(1) o r n show ?thesis by (intro conjI)
  qed
  have B: "?t = Offset b \<and> (\<forall>x y. fst (insertMeta d fm) \<noteq> Inl (RegionTooLarge x y))"
    if eq: "Size b = regionLen fm"
  proof -
    have "?t = Offset b" using eq by (simp add: metaOffset_def)
    moreover have "regionLen fm \<le> Size b" using eq by simp
    note insertMeta_not_too_large [OF boot ty mem this]
    ultimately show ?thesis by blast
  qed
  have C: "insertMeta d fm
              = (Inr (Offset b + (regionLen fm - 40)),
                 take (nat (Offset b)) d @ ?r @ drop (nat (Offset b) + length ?r) d)"
    if eq: "Size b = regionLen fm" and lo: "0 \<le> Offset b"
      and hi: "Offset b + Size b \<le> int (length d)"
      and er: "\<forall>j. Offset b \<le> j \<and> j < Offset b + Size b \<longrightarrow> d ! nat j = 0xff"
  proof -
    have t: "?t = Offset b" using eq by (simp add: metaOffset_def)
    have L: "0 \<le> regionLen fm" by (simp add: regionLen_def)
    have sc: "scanLoop d (Offset b) (Size b) (Offset b) = None"
      unfolding scanLoop_None using lo hi er L eq by auto
    have o: "\<not> 2 ^ 63 \<le> Offset b" using ty by (simp add: goInt_def)
    have le: "Offset b \<le> int (length d)" using hi L eq by simp
    have n: "length ?r \<le> length d - nat (Offset b)"
      using hi lo eq by (simp add: length_regionBytes regionLen_def)
    have g: "go_copy d (nat (Offset b)) (length d) ?r
        = take (nat (Offset b)) d @ ?r @ drop (nat (Offset b) + length ?r) d"
      using n by (simp add: go_copy_def Let_def min_def)
    show ?thesis
      using eq lo sc o le by (simp add: insertMeta_closed [OF boot ty mem] t g)
  qed
  have D: "insertMeta d fm = (Inl (RegionTooLarge (Size b) (regionLen fm)), d)"
    if "Size b = regionLen fm - 1"
    using that by (simp add: insertMeta_closed [OF boot ty mem])
  show ?thesis
    apply (intro conjI)
       apply (intro allI)
       apply (rule impI)
       apply (rule A)
       apply assumption
      apply (rule impI)
      apply (rule B)
      apply assumption
     apply (rule impI)
     apply (elim conjE)
     apply (rule C)
        apply assumption+
    apply (rule impI)
    apply (rule D)
    apply assumption
    done
qed

text \<open>
  Instances, with a region of 60 bytes and an erased image of 100 bytes: an area at
  offset 40 of 60 bytes, an area at offset 0 of 100 bytes, and an area at offset 40 of
  59 bytes.
\<close>

theorem placement_flush_witness:
  "insertMeta (replicate 100 0xff) (mapOf (bootAt 40 60))
     = (Inr 60, replicate 40 0xff @ regionBytes [bootAt 40 60])
   \<and> metaOffset (bootAt 40 60) (mapOf (bootAt 40 60)) = 40
   \<and> snd (insertMeta (replicate 100 0xff) (mapOf (bootAt 0 100))) ! 40 = 1
   \<and> insertMeta (replicate 100 0xff) (mapOf (bootAt 40 59))
       = (Inl (RegionTooLarge 59 60), replicate 100 0xff)"
proof -
  have g: "goInt 0" "goInt 40" "goInt 59" "goInt 60" "goInt 100" by (simp_all add: goInt_def)
  have mem: "int (length (replicate 100 (0xff :: byte))) + regionLen (mapOf b) < 2 ^ 63" for b
    by (simp add: regionLen_mapOf)
  have e: "\<forall>j. Offset (bootAt 40 60) \<le> j \<and> j < Offset (bootAt 40 60) + Size (bootAt 40 60)
             \<longrightarrow> replicate 100 (0xff :: byte) ! nat j = 0xff"
    by auto
  have p1: "Size (bootAt 40 60) = regionLen (mapOf (bootAt 40 60)) \<and> 0 \<le> Offset (bootAt 40 60)
      \<and> Offset (bootAt 40 60) + Size (bootAt 40 60) \<le> int (length (replicate 100 (0xff :: byte)))
      \<and> (\<forall>j. Offset (bootAt 40 60) \<le> j \<and> j < Offset (bootAt 40 60) + Size (bootAt 40 60)
             \<longrightarrow> replicate 100 (0xff :: byte) ! nat j = 0xff)"
    using e by (simp add: regionLen_mapOf)
  note p = placement_flush [OF boot_mapOf, of _ "replicate 100 0xff"]
  have q1: "goInt (Offset (bootAt 40 60))" "goInt (Size (bootAt 40 60))" using g by simp_all
  from p [OF q1 mem, THEN conjunct2, THEN conjunct2, THEN conjunct1, rule_format, OF p1]
  have 1: "insertMeta (replicate 100 0xff) (mapOf (bootAt 40 60))
     = (Inr 60, replicate 40 0xff @ regionBytes [bootAt 40 60])"
    by (simp add: regionLen_mapOf length_regionBytes)
  from p [OF q1 mem, THEN conjunct2, THEN conjunct1]
  have 0: "metaOffset (bootAt 40 60) (mapOf (bootAt 40 60)) = 40"
    by (simp add: regionLen_mapOf)
  have f: "fst (insertMeta (replicate 100 0xff) (mapOf (bootAt 0 100))) = Inr 60"
    by (simp add: ex_success)
  have m: "metaOffset (bootAt 0 100) (mapOf (bootAt 0 100)) = 40"
    by (simp add: metaOffset_def regionLen_mapOf)
  have r0: "regionBytes [bootAt 0 100] ! 0 = 1"
    by (simp add: regionBytes_def)
  have q2: "goInt (Offset (bootAt 0 100))" "goInt (Size (bootAt 0 100))" using g by simp_all
  from p [OF q2 mem, THEN conjunct1, rule_format, OF f,
      THEN conjunct2, THEN conjunct2, THEN conjunct2, rule_format, of 0]
  have 2: "snd (insertMeta (replicate 100 0xff) (mapOf (bootAt 0 100))) ! 40 = 1"
    by (simp add: m r0 length_regionBytes)
  have q3: "goInt (Offset (bootAt 40 59))" "goInt (Size (bootAt 40 59))" using g by simp_all
  from p [OF q3 mem, THEN conjunct2, THEN conjunct2, THEN conjunct2]
  have 3: "insertMeta (replicate 100 0xff) (mapOf (bootAt 40 59))
       = (Inl (RegionTooLarge 59 60), replicate 100 0xff)"
    by (simp add: regionLen_mapOf)
  from 1 0 2 3 show ?thesis by (intro conjI)
qed

subsection \<open>The offset of the hash\<close>








subsection \<open>The length of the image\<close>






end
